theory Spec2Isabelle
  imports Main "HOL-Library.AList"
begin

section \<open>File integrity monitoring agents: data model\<close>

text \<open>
  The repository holds two variants of the FIM agent: \<^verbatim>\<open>fim/agents/fim-agent.py\<close> (the
  basic agent) and \<^verbatim>\<open>fim/agents/fim-agent-prometheus.py\<close> (the Prometheus agent). Both
  define a class \<^verbatim>\<open>FIMAgent\<close> with methods of the same names; the definitions
  embedding the Prometheus agent carry the prefix \<open>prom_\<close>.

  A Python \<^verbatim>\<open>dict\<close> is an association list in insertion order whose keys are distinct;
  \<open>map_of\<close> is the lookup and \<open>AList.update\<close> the assignment \<^verbatim>\<open>d[k] = v\<close> (an existing
  key keeps its position, a new key goes last).
\<close>

type_synonym path = string
type_synonym digest = string
type_synonym timestamp = string

text \<open>
  The value stored for one path in a snapshot. The basic agent writes the keys
  \<^verbatim>\<open>hash, size, mtime, scanned_at\<close>, the Prometheus agent \<^verbatim>\<open>hash, size, mtime, type\<close>;
  a key that is not written is \<open>None\<close>. The modification time is a float in the source and
  an opaque integer here.
\<close>

record file_info =
  hash :: digest
  fsize :: nat
  mtime :: int
  scanned_at :: "timestamp option"
  ftype :: "string option"

type_synonym snapshot = "(path \<times> file_info) list"

text \<open>
  A change record. \<open>ctype\<close> is the key \<^verbatim>\<open>type\<close>, \<open>cfile\<close> the key \<^verbatim>\<open>file\<close> (basic agent)
  or \<^verbatim>\<open>path\<close> (Prometheus agent), \<open>chash\<close> the key \<^verbatim>\<open>hash\<close>; a key that the source
  does not put into the dict is \<open>None\<close>.
\<close>

record change =
  ctype :: string
  cfile :: path
  old_hash :: "digest option"
  new_hash :: "digest option"
  chash :: "digest option"
  c_timestamp :: timestamp

record report =
  r_timestamp :: timestamp
  r_changes :: "change list"
  r_total_changes :: nat

text \<open>
  The report file holds a JSON array of reports (written by the basic agent) or a single
  JSON object (written by the Prometheus agent).
\<close>

datatype report_doc = ReportList "report list" | ReportObj report

text \<open>
  A JSON file on disk: absent, holding a document, or holding bytes that \<^verbatim>\<open>json.load\<close>
  rejects (a truncated or partly written document).
\<close>

datatype 'a json_file = Absent | Holds 'a | Torn

text \<open>
  What \<^verbatim>\<open>with open(name, 'w') as f: json.dump(doc, f)\<close> can do: succeed; fail in \<^verbatim>\<open>open\<close>,
  before the file is touched; or fail after \<^verbatim>\<open>open\<close> has truncated the file.
\<close>

datatype write_outcome = WriteOk | OpenFails | DumpFails

text \<open>A call that returns a value, or raises an exception that its caller does not catch.\<close>

datatype 'a result = Returned 'a | Raised

fun write_json :: "write_outcome \<Rightarrow> 'a \<Rightarrow> 'a json_file \<Rightarrow> 'a json_file" where
  "write_json WriteOk doc f = Holds doc"
| "write_json OpenFails doc f = f"
| "write_json DumpFails doc f = Torn"

text \<open>
  The state that outlives a scan cycle: the baseline file, the report file, and the lines
  logged at level CRITICAL (each \<^verbatim>\<open>FIM Alert: n file changes detected\<close>, kept as \<open>n\<close>).
  Other log lines and the Prometheus counters and gauges are not part of the model.

  The clock is an argument: every \<^verbatim>\<open>datetime.now()\<close> during one call of a function gives
  the one reading \<open>now\<close> that the function is given.
\<close>

record world =
  baseline_file :: "snapshot json_file"
  report_file :: "report_doc json_file"
  critical_log :: "nat list"

record config =
  monitored_paths :: "path list"
  excluded_paths :: "string list"
  alert_on_change :: bool
  hash_algorithm :: string
  alert_threshold :: int

text \<open>
  The operating system as the agents see it during one cycle. \<open>walk_files d\<close> lists
  \<^verbatim>\<open>os.path.join(root, file)\<close> for every file that \<^verbatim>\<open>os.walk(d)\<close> yields, in order;
  \<open>read_file\<close> is \<open>None\<close> when opening or reading the file raises; \<open>hashlib_new\<close> is \<open>None\<close>
  when \<^verbatim>\<open>hashlib.new\<close> rejects the algorithm name, and otherwise maps the bytes read to
  the hex digest; \<open>sha256\<close> is \<^verbatim>\<open>hashlib.sha256\<close>. \<open>getsize\<close> and \<open>getmtime\<close> are read only
  after the file has been hashed, and the files are taken not to change during a cycle.
\<close>

record os_env =
  path_exists :: "path \<Rightarrow> bool"
  isfile :: "path \<Rightarrow> bool"
  walk_files :: "path \<Rightarrow> path list"
  read_file :: "path \<Rightarrow> string option"
  hashlib_new :: "string \<Rightarrow> (string \<Rightarrow> digest) option"
  sha256 :: "string \<Rightarrow> digest"
  getsize :: "path \<Rightarrow> nat"
  getmtime :: "path \<Rightarrow> int"

section \<open>Strings\<close>

text \<open>\<^verbatim>\<open>s.startswith(p)\<close>.\<close>

fun startswith :: "string \<Rightarrow> string \<Rightarrow> bool" where
  "startswith s [] = True"
| "startswith [] (c # p) = False"
| "startswith (x # s) (c # p) = (x = c \<and> startswith s p)"

text \<open>\<^verbatim>\<open>s.endswith('*')\<close>; \<^verbatim>\<open>s[:-1]\<close> is \<open>butlast s\<close>.\<close>

definition endswith_star :: "string \<Rightarrow> bool" where
  "endswith_star s = (s \<noteq> [] \<and> last s = CHR ''*'')"

text \<open>The truth value of \<^verbatim>\<open>if file_hash:\<close>: neither \<^verbatim>\<open>None\<close> nor the empty string.\<close>

fun truthy :: "string option \<Rightarrow> bool" where
  "truthy None = False"
| "truthy (Some s) = (s \<noteq> [])"

section \<open>The basic agent\<close>

subsection \<open>Path classifier\<close>

text \<open>The first loop of \<^verbatim>\<open>should_monitor_path\<close>: true when it returns \<^verbatim>\<open>False\<close> early.\<close>

primrec check_exclusions :: "path \<Rightarrow> string list \<Rightarrow> bool" where
  "check_exclusions path_str [] = False"
| "check_exclusions path_str (excluded # rest) =
     (if endswith_star excluded then
        (if startswith path_str (butlast excluded) then True
         else check_exclusions path_str rest)
      else
        (if path_str = excluded \<or> startswith path_str (excluded @ ''/'') then True
         else check_exclusions path_str rest))"

text \<open>The second loop: true when it returns \<^verbatim>\<open>True\<close> early.\<close>

primrec check_inclusions :: "path \<Rightarrow> path list \<Rightarrow> bool" where
  "check_inclusions path_str [] = False"
| "check_inclusions path_str (included # rest) =
     (if startswith path_str included then True else check_inclusions path_str rest)"

definition should_monitor_path :: "config \<Rightarrow> path \<Rightarrow> bool" where
  "should_monitor_path cfg path_str =
     (if check_exclusions path_str (excluded_paths cfg) then False
      else check_inclusions path_str (monitored_paths cfg))"

subsection \<open>Content digester and snapshot builder\<close>

definition calculate_file_hash :: "config \<Rightarrow> os_env \<Rightarrow> path \<Rightarrow> digest option" where
  "calculate_file_hash cfg env file_path =
     (case hashlib_new env (hash_algorithm cfg) of
        None \<Rightarrow> None
      | Some hexdigest \<Rightarrow>
          (case read_file env file_path of
             None \<Rightarrow> None
           | Some bytes \<Rightarrow> Some (hexdigest bytes)))"

text \<open>
  The loop of \<^verbatim>\<open>scan_directory\<close> over the files of the walk, with the dict \<^verbatim>\<open>file_hashes\<close>
  as accumulator. Every \<^verbatim>\<open>datetime.now()\<close> of one call is the one reading \<open>now\<close>.
\<close>

primrec scan_directory_loop ::
  "config \<Rightarrow> os_env \<Rightarrow> timestamp \<Rightarrow> path list \<Rightarrow> snapshot \<Rightarrow> snapshot" where
  "scan_directory_loop cfg env now [] file_hashes = file_hashes"
| "scan_directory_loop cfg env now (file_path # rest) file_hashes =
     (if should_monitor_path cfg file_path then
        (case calculate_file_hash cfg env file_path of
           None \<Rightarrow> scan_directory_loop cfg env now rest file_hashes
         | Some file_hash \<Rightarrow>
             (if truthy (Some file_hash) then
                scan_directory_loop cfg env now rest
                  (AList.update file_path
                     \<lparr>hash = file_hash, fsize = getsize env file_path,
                      mtime = getmtime env file_path, scanned_at = Some now,
                      ftype = None\<rparr> file_hashes)
              else scan_directory_loop cfg env now rest file_hashes))
      else scan_directory_loop cfg env now rest file_hashes)"

definition scan_directory :: "config \<Rightarrow> os_env \<Rightarrow> timestamp \<Rightarrow> path \<Rightarrow> snapshot" where
  "scan_directory cfg env now directory =
     scan_directory_loop cfg env now (walk_files env directory) []"

text \<open>\<^verbatim>\<open>d.update(e)\<close>: the entries of \<open>e\<close> are assigned in order.\<close>

definition dict_update :: "('k \<times> 'v) list \<Rightarrow> ('k \<times> 'v) list \<Rightarrow> ('k \<times> 'v) list" where
  "dict_update d e = fold (\<lambda>(k, v). AList.update k v) e d"

subsection \<open>Baseline store\<close>

text \<open>
  \<^verbatim>\<open>save_baseline\<close> catches the exception of a failed write and logs it;
  \<^verbatim>\<open>os.makedirs\<close> is taken to succeed.
\<close>

definition save_baseline :: "write_outcome \<Rightarrow> snapshot \<Rightarrow> world \<Rightarrow> world" where
  "save_baseline wr baseline_data w =
     w\<lparr>baseline_file := write_json wr baseline_data (baseline_file w)\<rparr>"

definition load_baseline :: "world \<Rightarrow> snapshot" where
  "load_baseline w =
     (case baseline_file w of
        Absent \<Rightarrow> []
      | Holds baseline \<Rightarrow> baseline
      | Torn \<Rightarrow> [])"

subsection \<open>Diff engine\<close>

text \<open>
  The two loops of \<^verbatim>\<open>compare_with_baseline\<close>; each returns the records it appends to
  \<^verbatim>\<open>changes\<close>, in order.
\<close>

primrec check_modified :: "snapshot \<Rightarrow> timestamp \<Rightarrow> snapshot \<Rightarrow> change list" where
  "check_modified baseline now [] = []"
| "check_modified baseline now (item # rest) =
     (case map_of baseline (fst item) of
        Some baseline_info \<Rightarrow>
          (if hash (snd item) \<noteq> hash baseline_info then
             [\<lparr>ctype = ''modified'', cfile = fst item,
               old_hash = Some (hash baseline_info), new_hash = Some (hash (snd item)),
               chash = None, c_timestamp = now\<rparr>]
           else [])
      | None \<Rightarrow>
          [\<lparr>ctype = ''new'', cfile = fst item, old_hash = None, new_hash = None,
            chash = Some (hash (snd item)), c_timestamp = now\<rparr>])
     @ check_modified baseline now rest"

text \<open>
  The second loop runs over the keys of \<^verbatim>\<open>baseline\<close>, so \<^verbatim>\<open>baseline[file_path]\<close> is always
  there; the \<open>None\<close> branch is the \<^verbatim>\<open>KeyError\<close> that cannot happen.
\<close>

primrec check_deleted ::
  "snapshot \<Rightarrow> snapshot \<Rightarrow> timestamp \<Rightarrow> path list \<Rightarrow> change list" where
  "check_deleted baseline current_hashes now [] = []"
| "check_deleted baseline current_hashes now (file_path # rest) =
     (if map_of current_hashes file_path = None then
        (case map_of baseline file_path of
           Some baseline_info \<Rightarrow>
             [\<lparr>ctype = ''deleted'', cfile = file_path,
               old_hash = Some (hash baseline_info), new_hash = None, chash = None,
               c_timestamp = now\<rparr>]
         | None \<Rightarrow> [])
      else [])
     @ check_deleted baseline current_hashes now rest"

definition compare_with_baseline :: "world \<Rightarrow> timestamp \<Rightarrow> snapshot \<Rightarrow> change list" where
  "compare_with_baseline w now current_hashes =
     (let baseline = load_baseline w
      in check_modified baseline now current_hashes
         @ check_deleted baseline current_hashes now (map fst baseline))"

subsection \<open>Reporting, alerting and the scan cycle\<close>

text \<open>
  \<^verbatim>\<open>report_changes\<close>: the whole body after the log lines is inside \<^verbatim>\<open>try\<close>. A report
  file that \<^verbatim>\<open>json.load\<close> rejects, or one that holds an object (\<^verbatim>\<open>append\<close> is not an
  attribute of a dict), raises before anything is written.
\<close>

definition report_changes ::
  "timestamp \<Rightarrow> write_outcome \<Rightarrow> change list \<Rightarrow> world \<Rightarrow> world" where
  "report_changes now wr changes w =
     (if changes = [] then w
      else
        (let report_data =
               \<lparr>r_timestamp = now, r_changes = changes, r_total_changes = length changes\<rparr>
         in case report_file w of
              Absent \<Rightarrow>
                w\<lparr>report_file := write_json wr (ReportList ([] @ [report_data])) Absent\<rparr>
            | Holds (ReportList reports) \<Rightarrow>
                w\<lparr>report_file :=
                    write_json wr (ReportList (reports @ [report_data])) (report_file w)\<rparr>
            | Holds (ReportObj r) \<Rightarrow> w
            | Torn \<Rightarrow> w))"

definition send_alert :: "change list \<Rightarrow> world \<Rightarrow> world" where
  "send_alert changes w = w\<lparr>critical_log := critical_log w @ [length changes]\<rparr>"

text \<open>The loop of \<^verbatim>\<open>perform_scan\<close> over the monitored paths, \<^verbatim>\<open>all_hashes\<close> as accumulator.\<close>

primrec scan_monitored_paths ::
  "config \<Rightarrow> os_env \<Rightarrow> timestamp \<Rightarrow> path list \<Rightarrow> snapshot \<Rightarrow> snapshot" where
  "scan_monitored_paths cfg env now [] all_hashes = all_hashes"
| "scan_monitored_paths cfg env now (p # rest) all_hashes =
     (if path_exists env p then
        scan_monitored_paths cfg env now rest
          (dict_update all_hashes (scan_directory cfg env now p))
      else scan_monitored_paths cfg env now rest all_hashes)"

text \<open>
  \<^verbatim>\<open>perform_scan\<close>; \<open>wr_report\<close> and \<open>wr_baseline\<close> are the outcomes of its two writes.
\<close>

definition perform_scan ::
  "config \<Rightarrow> os_env \<Rightarrow> timestamp \<Rightarrow> write_outcome \<Rightarrow> write_outcome \<Rightarrow> world \<Rightarrow> world" where
  "perform_scan cfg env now wr_report wr_baseline w =
     (let all_hashes = scan_monitored_paths cfg env now (monitored_paths cfg) [];
          changes = compare_with_baseline w now all_hashes;
          w1 = (if changes \<noteq> [] then
                  (let w0 = report_changes now wr_report changes w
                   in if alert_on_change cfg then send_alert changes w0 else w0)
                else w)
      in save_baseline wr_baseline all_hashes w1)"

section \<open>The Prometheus agent\<close>

subsection \<open>Path classifier and content digester\<close>

primrec prom_is_excluded_loop :: "path \<Rightarrow> string list \<Rightarrow> bool" where
  "prom_is_excluded_loop p [] = False"
| "prom_is_excluded_loop p (excluded # rest) =
     (if endswith_star excluded then
        (if startswith p (butlast excluded) then True else prom_is_excluded_loop p rest)
      else if p = excluded \<or> startswith p (excluded @ ''/'') then True
      else prom_is_excluded_loop p rest)"

definition prom_is_excluded_path :: "config \<Rightarrow> path \<Rightarrow> bool" where
  "prom_is_excluded_path cfg p = prom_is_excluded_loop p (excluded_paths cfg)"

definition prom_calculate_file_hash :: "os_env \<Rightarrow> path \<Rightarrow> digest option" where
  "prom_calculate_file_hash env file_path =
     (case read_file env file_path of
        None \<Rightarrow> None
      | Some bytes \<Rightarrow> Some (sha256 env bytes))"

subsection \<open>Baseline store\<close>

text \<open>
  What \<^verbatim>\<open>create_baseline\<close> does with one path, a monitored path that is a file or a file
  of a walk: the two branches of the source have the same body.
\<close>

definition prom_baseline_entry :: "config \<Rightarrow> os_env \<Rightarrow> path \<Rightarrow> snapshot \<Rightarrow> snapshot" where
  "prom_baseline_entry cfg env file_path baseline =
     (if \<not> prom_is_excluded_path cfg file_path then
        (case prom_calculate_file_hash env file_path of
           None \<Rightarrow> baseline
         | Some file_hash \<Rightarrow>
             (if truthy (Some file_hash) then
                AList.update file_path
                  \<lparr>hash = file_hash, fsize = getsize env file_path,
                   mtime = getmtime env file_path, scanned_at = None,
                   ftype = Some ''file''\<rparr> baseline
              else baseline))
      else baseline)"

primrec prom_baseline_walk ::
  "config \<Rightarrow> os_env \<Rightarrow> path list \<Rightarrow> snapshot \<Rightarrow> snapshot" where
  "prom_baseline_walk cfg env [] baseline = baseline"
| "prom_baseline_walk cfg env (file_path # rest) baseline =
     prom_baseline_walk cfg env rest (prom_baseline_entry cfg env file_path baseline)"

primrec prom_baseline_paths ::
  "config \<Rightarrow> os_env \<Rightarrow> path list \<Rightarrow> snapshot \<Rightarrow> snapshot" where
  "prom_baseline_paths cfg env [] baseline = baseline"
| "prom_baseline_paths cfg env (p # rest) baseline =
     (if \<not> path_exists env p then prom_baseline_paths cfg env rest baseline
      else if isfile env p then
        prom_baseline_paths cfg env rest (prom_baseline_entry cfg env p baseline)
      else
        prom_baseline_paths cfg env rest
          (prom_baseline_walk cfg env (walk_files env p) baseline))"

text \<open>
  \<^verbatim>\<open>create_baseline\<close> writes the baseline file outside any \<^verbatim>\<open>try\<close>: a failed write raises
  out of it. \<^verbatim>\<open>os.makedirs\<close> is taken to succeed.
\<close>

definition prom_create_baseline ::
  "config \<Rightarrow> os_env \<Rightarrow> write_outcome \<Rightarrow> world \<Rightarrow> snapshot result \<times> world" where
  "prom_create_baseline cfg env wr w =
     (let baseline = prom_baseline_paths cfg env (monitored_paths cfg) [];
          w' = w\<lparr>baseline_file := write_json wr baseline (baseline_file w)\<rparr>
      in (if wr = WriteOk then Returned baseline else Raised, w'))"

definition prom_load_baseline ::
  "config \<Rightarrow> os_env \<Rightarrow> write_outcome \<Rightarrow> world \<Rightarrow> snapshot result \<times> world" where
  "prom_load_baseline cfg env wr w =
     (case baseline_file w of
        Holds baseline \<Rightarrow> (Returned baseline, w)
      | Torn \<Rightarrow> (Returned [], w)
      | Absent \<Rightarrow> prom_create_baseline cfg env wr w)"

definition prom_update_baseline ::
  "config \<Rightarrow> os_env \<Rightarrow> write_outcome \<Rightarrow> world \<Rightarrow> unit result \<times> world" where
  "prom_update_baseline cfg env wr w =
     (case prom_create_baseline cfg env wr w of
        (Returned baseline, w') \<Rightarrow> (Returned (), w')
      | (Raised, w') \<Rightarrow> (Raised, w'))"

subsection \<open>The scan\<close>

text \<open>\<^verbatim>\<open>check_file\<close> returns the list \<^verbatim>\<open>changes\<close> that the source extends in place.\<close>

definition prom_check_file ::
  "os_env \<Rightarrow> timestamp \<Rightarrow> path \<Rightarrow> snapshot \<Rightarrow> change list \<Rightarrow> change list" where
  "prom_check_file env now file_path baseline changes =
     (case map_of baseline file_path of
        Some baseline_info \<Rightarrow>
          (case prom_calculate_file_hash env file_path of
             None \<Rightarrow> changes
           | Some current_hash \<Rightarrow>
               (if truthy (Some current_hash) \<and> current_hash \<noteq> hash baseline_info then
                  changes @
                  [\<lparr>ctype = ''MODIFIED'', cfile = file_path,
                    old_hash = Some (hash baseline_info), new_hash = Some current_hash,
                    chash = None, c_timestamp = now\<rparr>]
                else changes))
      | None \<Rightarrow>
          (case prom_calculate_file_hash env file_path of
             None \<Rightarrow> changes
           | Some file_hash \<Rightarrow>
               (if truthy (Some file_hash) then
                  changes @
                  [\<lparr>ctype = ''NEW'', cfile = file_path, old_hash = None, new_hash = None,
                    chash = Some file_hash, c_timestamp = now\<rparr>]
                else changes)))"

text \<open>The loops of \<^verbatim>\<open>scan_files\<close>: over the files of one walk, over the monitored paths.\<close>

primrec prom_scan_walk ::
  "config \<Rightarrow> os_env \<Rightarrow> timestamp \<Rightarrow> snapshot \<Rightarrow> path list \<Rightarrow> change list \<Rightarrow> change list"
  where
  "prom_scan_walk cfg env now baseline [] changes = changes"
| "prom_scan_walk cfg env now baseline (file_path # rest) changes =
     prom_scan_walk cfg env now baseline rest
       (if \<not> prom_is_excluded_path cfg file_path
        then prom_check_file env now file_path baseline changes else changes)"

primrec prom_scan_paths ::
  "config \<Rightarrow> os_env \<Rightarrow> timestamp \<Rightarrow> snapshot \<Rightarrow> path list \<Rightarrow> change list \<Rightarrow> change list"
  where
  "prom_scan_paths cfg env now baseline [] changes = changes"
| "prom_scan_paths cfg env now baseline (p # rest) changes =
     (if \<not> path_exists env p then prom_scan_paths cfg env now baseline rest changes
      else if isfile env p then
        prom_scan_paths cfg env now baseline rest
          (if \<not> prom_is_excluded_path cfg p
           then prom_check_file env now p baseline changes else changes)
      else
        prom_scan_paths cfg env now baseline rest
          (prom_scan_walk cfg env now baseline (walk_files env p) changes))"

text \<open>The loop over the keys of the baseline that appends the DELETED records.\<close>

primrec prom_check_deleted ::
  "os_env \<Rightarrow> timestamp \<Rightarrow> path list \<Rightarrow> change list \<Rightarrow> change list" where
  "prom_check_deleted env now [] changes = changes"
| "prom_check_deleted env now (file_path # rest) changes =
     prom_check_deleted env now rest
       (if \<not> path_exists env file_path then
          changes @
          [\<lparr>ctype = ''DELETED'', cfile = file_path, old_hash = None, new_hash = None,
            chash = None, c_timestamp = now\<rparr>]
        else changes)"

text \<open>The list \<^verbatim>\<open>changes\<close> of \<^verbatim>\<open>scan_files\<close> once both loops have run.\<close>

definition prom_scan_changes ::
  "config \<Rightarrow> os_env \<Rightarrow> timestamp \<Rightarrow> snapshot \<Rightarrow> change list" where
  "prom_scan_changes cfg env now baseline =
     prom_check_deleted env now (map fst baseline)
       (prom_scan_paths cfg env now baseline (monitored_paths cfg) [])"

text \<open>\<^verbatim>\<open>save_report\<close> catches the exception of a failed write.\<close>

definition prom_save_report ::
  "timestamp \<Rightarrow> write_outcome \<Rightarrow> change list \<Rightarrow> world \<Rightarrow> world" where
  "prom_save_report now wr changes w =
     w\<lparr>report_file :=
         write_json wr
           (ReportObj \<lparr>r_timestamp = now, r_changes = changes,
                       r_total_changes = length changes\<rparr>)
           (report_file w)\<rparr>"

text \<open>
  \<^verbatim>\<open>scan_files\<close>; \<open>wr_load\<close>, \<open>wr_report\<close> and \<open>wr_update\<close> are the outcomes of the writes in
  \<^verbatim>\<open>load_baseline\<close>, \<^verbatim>\<open>save_report\<close> and \<^verbatim>\<open>update_baseline\<close>.
\<close>

definition prom_scan_files ::
  "config \<Rightarrow> os_env \<Rightarrow> timestamp \<Rightarrow> write_outcome \<Rightarrow> write_outcome \<Rightarrow> write_outcome
     \<Rightarrow> world \<Rightarrow> unit result \<times> world" where
  "prom_scan_files cfg env now wr_load wr_report wr_update w =
     (case prom_load_baseline cfg env wr_load w of
        (Raised, w1) \<Rightarrow> (Raised, w1)
      | (Returned baseline, w1) \<Rightarrow>
          (let changes = prom_scan_changes cfg env now baseline
           in if changes \<noteq> [] then
                (let w2 = (if int (length changes) \<ge> alert_threshold cfg
                           then w1\<lparr>critical_log := critical_log w1 @ [length changes]\<rparr>
                           else w1);
                     w3 = prom_save_report now wr_report changes w2
                 in prom_update_baseline cfg env wr_update w3)
              else (Returned (), w1)))"

section \<open>Exclusion rules, report records and visited paths, as the statements use them\<close>

text \<open>
  A rule ending in the wildcard marker matches a path that starts with the text before the
  marker; any other rule matches the path equal to it and the paths that start with the
  rule followed by a path separator.
\<close>

definition rule_matches :: "string \<Rightarrow> path \<Rightarrow> bool" where
  "rule_matches rule p =
     (if rule \<noteq> [] \<and> last rule = CHR ''*''
      then take (length (butlast rule)) p = butlast rule
      else p = rule \<or> take (length (rule @ ''/'')) p = rule @ ''/'')"



section \<open>Example inputs\<close>

text \<open>A world whose baseline holds two files, and a later snapshot of the same tree.\<close>

definition w_ex :: world where
  "w_ex = \<lparr>baseline_file = Holds
       [(''/data/a.txt'', \<lparr>hash = ''h1'', fsize = 5, mtime = 1, scanned_at = Some ''t0'', ftype = None\<rparr>),
        (''/data/b.txt'', \<lparr>hash = ''h2'', fsize = 7, mtime = 1, scanned_at = Some ''t0'', ftype = None\<rparr>)],
     report_file = Absent, critical_log = []\<rparr>"


text \<open>
  A configuration with one monitored root and one prefix-pattern exclusion; a file system
  with a readable file and an excluded file under the root; the same file system with every
  file unreadable, and with nothing left on disk; the baseline the Prometheus agent builds
  on the first of them.
\<close>

definition cfg_ex :: config where
  "cfg_ex = \<lparr>monitored_paths = [''/data''], excluded_paths = [''/data/tmp*''],
     alert_on_change = True, hash_algorithm = ''sha256'', alert_threshold = 10\<rparr>"

definition env_ex :: os_env where
  "env_ex = \<lparr>
     path_exists = (\<lambda>p. p \<in> set [''/data'', ''/data/a.txt'', ''/data/tmp/x.log'']),
     isfile = (\<lambda>p. p \<in> set [''/data/a.txt'', ''/data/tmp/x.log'']),
     walk_files = (\<lambda>d. if d = ''/data'' then [''/data/a.txt'', ''/data/tmp/x.log''] else []),
     read_file = (\<lambda>p. if p = ''/data/a.txt'' then Some ''hello''
                      else if p = ''/data/tmp/x.log'' then Some ''x'' else None),
     hashlib_new = (\<lambda>n. if n = ''sha256'' then Some (\<lambda>b. ''#'' @ b) else None),
     sha256 = (\<lambda>b. ''#'' @ b),
     getsize = (\<lambda>p. if p = ''/data/a.txt'' then 5 else 1),
     getmtime = (\<lambda>p. 0)\<rparr>"

definition env_unreadable :: os_env where
  "env_unreadable = env_ex\<lparr>read_file := (\<lambda>p. None)\<rparr>"

definition env_gone :: os_env where
  "env_gone = env_ex\<lparr>path_exists := (\<lambda>p. False), walk_files := (\<lambda>d. []),
     read_file := (\<lambda>p. None)\<rparr>"

definition base_ex :: snapshot where
  "base_ex = [(''/data/a.txt'', \<lparr>hash = ''#hello'', fsize = 5, mtime = 0, scanned_at = None,
                 ftype = Some ''file''\<rparr>)]"

text \<open>
  Worlds: a baseline written by the basic agent at \<open>t0\<close>; the baseline of the Prometheus
  agent; no baseline file; an empty baseline.
\<close>

definition w_basic :: world where
  "w_basic = \<lparr>baseline_file = Holds
       [(''/data/a.txt'', \<lparr>hash = ''#hello'', fsize = 5, mtime = 0, scanned_at = Some ''t0'',
           ftype = None\<rparr>)],
     report_file = Absent, critical_log = []\<rparr>"

definition w_prom :: world where
  "w_prom = \<lparr>baseline_file = Holds base_ex, report_file = Absent, critical_log = []\<rparr>"

definition w_absent :: world where
  "w_absent = \<lparr>baseline_file = Absent, report_file = Absent, critical_log = []\<rparr>"

definition w_empty :: world where
  "w_empty = \<lparr>baseline_file = Holds [], report_file = Absent, critical_log = []\<rparr>"

text \<open>
  A file system with a given list of readable files under \<^verbatim>\<open>/data\<close>; eleven file
  names.
\<close>

definition files11 :: "path list" where
  "files11 = map (\<lambda>c. ''/data/f'' @ [c]) ''abcdefghijk''"

definition env_files :: "path list \<Rightarrow> os_env" where
  "env_files files = \<lparr>
     path_exists = (\<lambda>p. p = ''/data'' \<or> p \<in> set files),
     isfile = (\<lambda>p. p \<in> set files),
     walk_files = (\<lambda>d. if d = ''/data'' then files else []),
     read_file = (\<lambda>p. if p \<in> set files then Some p else None),
     hashlib_new = (\<lambda>n. if n = ''sha256'' then Some (\<lambda>b. ''#'' @ b) else None),
     sha256 = (\<lambda>b. ''#'' @ b),
     getsize = (\<lambda>p. length p),
     getmtime = (\<lambda>p. 0)\<rparr>"








section \<open>Properties of the diff engine\<close>







lemma check_modified_self:
  "\<forall>item \<in> set current. map_of baseline (fst item) = Some (snd item) \<Longrightarrow>
   check_modified baseline now current = []"
  by (induction current) auto

lemma check_deleted_self:
  "set ks \<subseteq> fst ` set current \<Longrightarrow> check_deleted baseline current now ks = []"
proof (induction ks)
  case Nil
  show ?case by simp
next
  case (Cons k rest)
  then have "map_of current k \<noteq> None"
    by (simp add: map_of_eq_None_iff)
  with Cons show ?case by auto
qed


text \<open>
  C5. Comparing a well-formed snapshot with itself, held by the baseline store, gives no
  change record.
\<close>

theorem compare_with_baseline_self:
  assumes "distinct (map fst S)" and "baseline_file w = Holds S"
  shows "compare_with_baseline w now S = []"
proof -
  have "load_baseline w = S"
    using assms(2) by (simp add: load_baseline_def)
  moreover have "\<forall>item \<in> set S. map_of S (fst item) = Some (snd item)"
    using assms(1) by auto
  ultimately show ?thesis
    by (simp add: compare_with_baseline_def check_modified_self check_deleted_self)
qed

theorem compare_with_baseline_self_witness:
  "distinct (map fst (load_baseline w_ex)) \<and> baseline_file w_ex = Holds (load_baseline w_ex) \<and>
   compare_with_baseline w_ex ''t1'' (load_baseline w_ex) = []"
proof -
  have d: "distinct (map fst (load_baseline w_ex))"
    by (simp add: w_ex_def load_baseline_def)
  have h: "baseline_file w_ex = Holds (load_baseline w_ex)"
    by (simp add: w_ex_def load_baseline_def)
  show ?thesis
    using d h compare_with_baseline_self [OF d h, of "''t1''"] by simp
qed

section \<open>The agents on the example inputs\<close>

lemma scan_ex:
  "scan_monitored_paths cfg_ex env_ex ''t1'' (monitored_paths cfg_ex) [] =
     [(''/data/a.txt'', \<lparr>hash = ''#hello'', fsize = 5, mtime = 0, scanned_at = Some ''t1'',
         ftype = None\<rparr>)]"
  by (simp add: cfg_ex_def env_ex_def scan_directory_def should_monitor_path_def
      endswith_star_def calculate_file_hash_def dict_update_def)

lemma prom_scan_ex: "prom_scan_changes cfg_ex env_ex ''t1'' base_ex = []"
  by (simp add: prom_scan_changes_def cfg_ex_def env_ex_def base_ex_def
      prom_is_excluded_path_def endswith_star_def prom_check_file_def
      prom_calculate_file_hash_def)

lemma prom_baseline_ex:
  "prom_baseline_paths cfg_ex env_ex (monitored_paths cfg_ex) [] = base_ex"
  by (simp add: cfg_ex_def env_ex_def base_ex_def prom_baseline_entry_def
      prom_is_excluded_path_def endswith_star_def prom_calculate_file_hash_def)

lemma prom_scan_11: "length (prom_scan_changes cfg_ex (env_files files11) ''t1'' []) = 11"
  by (simp add: prom_scan_changes_def cfg_ex_def env_files_def files11_def
      prom_is_excluded_path_def endswith_star_def prom_check_file_def
      prom_calculate_file_hash_def)

lemma prom_scan_9:
  "length (prom_scan_changes cfg_ex (env_files (take 9 files11)) ''t1'' []) = 9"
  by (simp add: prom_scan_changes_def cfg_ex_def env_files_def files11_def
      prom_is_excluded_path_def endswith_star_def prom_check_file_def
      prom_calculate_file_hash_def)

section \<open>Properties of the path classifier and the snapshot builders\<close>

lemma startswith_take: "startswith s q \<longleftrightarrow> take (length q) s = q"
  by (induction s q rule: startswith.induct) auto

lemma check_exclusions_iff:
  "check_exclusions p rules \<longleftrightarrow> (\<exists>rule \<in> set rules. rule_matches rule p)"
  by (induction rules) (auto simp: rule_matches_def endswith_star_def startswith_take)

lemma prom_is_excluded_loop_iff:
  "prom_is_excluded_loop p rules \<longleftrightarrow> (\<exists>rule \<in> set rules. rule_matches rule p)"
  by (induction rules) (auto simp: rule_matches_def endswith_star_def startswith_take)

lemma keys_scan_directory_loop:
  "fst ` set (scan_directory_loop cfg env now files acc) \<subseteq>
     fst ` set acc \<union> {f. should_monitor_path cfg f}"
proof (induction files arbitrary: acc)
  case Nil
  show ?case by simp
next
  case (Cons f rest)
  obtain acc' where eq: "scan_directory_loop cfg env now (f # rest) acc =
        scan_directory_loop cfg env now rest acc'"
    and step: "fst ` set acc' \<subseteq> fst ` set acc \<union> {f. should_monitor_path cfg f}"
  proof (cases "should_monitor_path cfg f")
    case False
    then show ?thesis using that [of acc] by simp
  next
    case True
    show ?thesis
    proof (cases "calculate_file_hash cfg env f")
      case None
      with True show ?thesis using that [of acc] by simp
    next
      case (Some h)
      show ?thesis
      proof (cases "h = []")
        case True
        with Some \<open>should_monitor_path cfg f\<close> show ?thesis using that [of acc] by simp
      next
        case False
        with Some \<open>should_monitor_path cfg f\<close> show ?thesis
          using that [of "AList.update f \<lparr>hash = h, fsize = getsize env f,
              mtime = getmtime env f, scanned_at = Some now, ftype = None\<rparr> acc"]
          by (simp add: dom_update)
      qed
    qed
  qed
  from Cons.IH [of acc'] step show ?case
    unfolding eq by blast
qed

lemma keys_dict_update: "fst ` set (dict_update d e) = fst ` set d \<union> fst ` set e"
proof (induction e arbitrary: d)
  case Nil
  show ?case by (simp add: dict_update_def)
next
  case (Cons x e)
  obtain k v where x: "x = (k, v)" by (cases x)
  have "dict_update d (x # e) = dict_update (AList.update k v d) e"
    by (simp add: dict_update_def x)
  then have "fst ` set (dict_update d (x # e)) =
             fst ` set (AList.update k v d) \<union> fst ` set e"
    by (simp add: Cons.IH)
  also have "\<dots> = fst ` set d \<union> fst ` set (x # e)"
    unfolding dom_update x by auto
  finally show ?case .
qed

lemma keys_scan_directory:
  "fst ` set (scan_directory cfg env now d) \<subseteq> {f. should_monitor_path cfg f}"
  using keys_scan_directory_loop [of cfg env now "walk_files env d" "[]"]
  by (simp add: scan_directory_def)

lemma keys_scan_step:
  "fst ` set (dict_update acc (scan_directory cfg env now d)) \<subseteq>
     fst ` set acc \<union> {f. should_monitor_path cfg f}"
  unfolding keys_dict_update using keys_scan_directory [of cfg env now d] by blast

lemma keys_scan_monitored_paths:
  "fst ` set (scan_monitored_paths cfg env now paths acc) \<subseteq>
     fst ` set acc \<union> {f. should_monitor_path cfg f}"
proof (induction paths arbitrary: acc)
  case Nil
  show ?case by simp
next
  case (Cons d rest)
  show ?case
  proof (cases "path_exists env d")
    case True
    have "fst ` set (scan_monitored_paths cfg env now rest
            (dict_update acc (scan_directory cfg env now d))) \<subseteq>
          fst ` set (dict_update acc (scan_directory cfg env now d))
            \<union> {f. should_monitor_path cfg f}"
      by (rule Cons.IH)
    also have "\<dots> \<subseteq> fst ` set acc \<union> {f. should_monitor_path cfg f}"
      using keys_scan_step [of acc cfg env now d] by (rule Un_least) simp
    finally show ?thesis
      using True by simp
  next
    case False
    have "fst ` set (scan_monitored_paths cfg env now rest acc) \<subseteq>
          fst ` set acc \<union> {f. should_monitor_path cfg f}"
      by (rule Cons.IH)
    then show ?thesis
      using False by simp
  qed
qed


lemma keys_prom_baseline_entry:
  "fst ` set (prom_baseline_entry cfg env f acc) \<subseteq>
     fst ` set acc \<union> {f. \<not> prom_is_excluded_path cfg f}"
  by (cases "prom_calculate_file_hash env f")
     (auto simp: prom_baseline_entry_def dom_update)

lemma keys_prom_baseline_walk:
  "fst ` set (prom_baseline_walk cfg env files acc) \<subseteq>
     fst ` set acc \<union> {f. \<not> prom_is_excluded_path cfg f}"
proof (induction files arbitrary: acc)
  case Nil
  show ?case by simp
next
  case (Cons f rest)
  have "fst ` set (prom_baseline_walk cfg env rest (prom_baseline_entry cfg env f acc)) \<subseteq>
        fst ` set (prom_baseline_entry cfg env f acc) \<union> {f. \<not> prom_is_excluded_path cfg f}"
    by (rule Cons.IH)
  also have "\<dots> \<subseteq> fst ` set acc \<union> {f. \<not> prom_is_excluded_path cfg f}"
    using keys_prom_baseline_entry [of cfg env f acc] by (rule Un_least) simp
  finally show ?case by simp
qed

lemma keys_prom_baseline_paths:
  "fst ` set (prom_baseline_paths cfg env paths acc) \<subseteq>
     fst ` set acc \<union> {f. \<not> prom_is_excluded_path cfg f}"
proof (induction paths arbitrary: acc)
  case Nil
  show ?case by simp
next
  case (Cons d rest)
  have step: "fst ` set (prom_baseline_paths cfg env rest acc') \<subseteq>
              fst ` set acc \<union> {f. \<not> prom_is_excluded_path cfg f}"
    if "fst ` set acc' \<subseteq> fst ` set acc \<union> {f. \<not> prom_is_excluded_path cfg f}" for acc'
  proof -
    have "fst ` set (prom_baseline_paths cfg env rest acc') \<subseteq>
          fst ` set acc' \<union> {f. \<not> prom_is_excluded_path cfg f}"
      by (rule Cons.IH)
    also have "\<dots> \<subseteq> fst ` set acc \<union> {f. \<not> prom_is_excluded_path cfg f}"
      using that by (rule Un_least) simp
    finally show ?thesis .
  qed
  show ?case
  proof (cases "path_exists env d")
    case False
    with step [of acc] show ?thesis by simp
  next
    case True
    show ?thesis
    proof (cases "isfile env d")
      case True
      with \<open>path_exists env d\<close> step [OF keys_prom_baseline_entry [of cfg env d acc]]
      show ?thesis by simp
    next
      case False
      with \<open>path_exists env d\<close>
        step [OF keys_prom_baseline_walk [of cfg env "walk_files env d" acc]]
      show ?thesis by simp
    qed
  qed
qed

lemma keys_scan_monitored_paths_Nil:
  "fst ` set (scan_monitored_paths cfg env now paths []) \<subseteq> {f. should_monitor_path cfg f}"
  using keys_scan_monitored_paths [of cfg env now paths "[]"] by simp

lemma keys_prom_baseline_paths_Nil:
  "fst ` set (prom_baseline_paths cfg env paths []) \<subseteq> {f. \<not> prom_is_excluded_path cfg f}"
  using keys_prom_baseline_paths [of cfg env paths "[]"] by simp

text \<open>
  C4. A path that some exclusion rule matches (in the words of the specification) is out of
  scope for both agents, whatever the monitored roots are, and is a key of no snapshot that
  a scan builds: not of a directory scan, not of the snapshot that \<^verbatim>\<open>perform_scan\<close> saves
  as baseline, not of the baseline that \<^verbatim>\<open>create_baseline\<close> builds and returns.
\<close>

theorem excluded_path_never_in_snapshot:
  assumes "\<exists>rule \<in> set (excluded_paths cfg). rule_matches rule p"
  shows "\<not> should_monitor_path cfg p
       \<and> prom_is_excluded_path cfg p
       \<and> p \<notin> fst ` set (scan_directory cfg env now d)
       \<and> p \<notin> fst ` set (scan_monitored_paths cfg env now (monitored_paths cfg) [])
       \<and> baseline_file (perform_scan cfg env now wr WriteOk w) =
           Holds (scan_monitored_paths cfg env now (monitored_paths cfg) [])
       \<and> p \<notin> fst ` set (prom_baseline_paths cfg env (monitored_paths cfg) [])
       \<and> (\<forall>s. fst (prom_create_baseline cfg env wr' w) = Returned s \<longrightarrow> p \<notin> fst ` set s)"
proof -
  have no: "\<not> should_monitor_path cfg p"
    using assms by (simp add: should_monitor_path_def check_exclusions_iff)
  have ex: "prom_is_excluded_path cfg p"
    using assms by (simp add: prom_is_excluded_path_def prom_is_excluded_loop_iff)
  have a: "p \<notin> fst ` set (scan_directory cfg env now d)"
  proof
    assume "p \<in> fst ` set (scan_directory cfg env now d)"
    with keys_scan_directory [of cfg env now d]
    have "p \<in> {f. should_monitor_path cfg f}"
      by (rule subsetD)
    with no show False by simp
  qed
  have b: "p \<notin> fst ` set (scan_monitored_paths cfg env now (monitored_paths cfg) [])"
  proof
    assume "p \<in> fst ` set (scan_monitored_paths cfg env now (monitored_paths cfg) [])"
    with keys_scan_monitored_paths_Nil [of cfg env now "monitored_paths cfg"]
    have "p \<in> {f. should_monitor_path cfg f}"
      by (rule subsetD)
    with no show False by simp
  qed
  have c: "baseline_file (perform_scan cfg env now wr WriteOk w) =
           Holds (scan_monitored_paths cfg env now (monitored_paths cfg) [])"
    by (simp add: perform_scan_def Let_def save_baseline_def)
  have e: "p \<notin> fst ` set (prom_baseline_paths cfg env (monitored_paths cfg) [])"
  proof
    assume "p \<in> fst ` set (prom_baseline_paths cfg env (monitored_paths cfg) [])"
    with keys_prom_baseline_paths_Nil [of cfg env "monitored_paths cfg"]
    have "p \<in> {f. \<not> prom_is_excluded_path cfg f}"
      by (rule subsetD)
    with ex show False by simp
  qed
  have f: "\<forall>s. fst (prom_create_baseline cfg env wr' w) = Returned s \<longrightarrow> p \<notin> fst ` set s"
    using e by (simp add: prom_create_baseline_def Let_def)
  from no ex a b c e f show ?thesis
    by (intro conjI)
qed

theorem excluded_path_never_in_snapshot_witness:
  "(\<exists>rule \<in> set (excluded_paths cfg_ex). rule_matches rule ''/data/tmp/x.log'')
   \<and> \<not> should_monitor_path cfg_ex ''/data/tmp/x.log''
   \<and> prom_is_excluded_path cfg_ex ''/data/tmp/x.log''
   \<and> ''/data/tmp/x.log'' \<notin> fst ` set (scan_directory cfg_ex env_ex ''t1'' ''/data'')
   \<and> ''/data/tmp/x.log'' \<notin>
        fst ` set (scan_monitored_paths cfg_ex env_ex ''t1'' (monitored_paths cfg_ex) [])
   \<and> ''/data/tmp/x.log'' \<notin>
        fst ` set (prom_baseline_paths cfg_ex env_ex (monitored_paths cfg_ex) [])"
proof -
  have h: "\<exists>rule \<in> set (excluded_paths cfg_ex). rule_matches rule ''/data/tmp/x.log''"
    by (simp add: cfg_ex_def rule_matches_def)
  from h excluded_path_never_in_snapshot
    [where cfg = cfg_ex and p = "''/data/tmp/x.log''" and env = env_ex and now = "''t1''"
       and d = "''/data''" and wr = WriteOk and w = w_ex and wr' = WriteOk, OF h]
  show ?thesis by (intro conjI) (elim conjE, assumption)+
qed

section \<open>Properties of the Prometheus scan\<close>

lemma not_in_image_cfile:
  "\<forall>c \<in> set xs. cfile c \<noteq> p \<Longrightarrow> p \<notin> cfile ` set xs"
  by auto

lemma prom_check_file_no_record:
  assumes "map_of baseline p = Some bi"
    and "prom_calculate_file_hash env p = None"
    and "list_all (\<lambda>c. cfile c \<noteq> p) changes"
  shows "list_all (\<lambda>c. cfile c \<noteq> p) (prom_check_file env now f baseline changes)"
proof (cases "f = p")
  case True
  with assms show ?thesis by (simp add: prom_check_file_def)
next
  case False
  with assms(3) show ?thesis
    by (cases "map_of baseline f"; cases "prom_calculate_file_hash env f")
       (simp_all add: prom_check_file_def)
qed

lemma prom_scan_walk_no_record:
  assumes "map_of baseline p = Some bi"
    and "prom_calculate_file_hash env p = None"
  shows "list_all (\<lambda>c. cfile c \<noteq> p) changes \<Longrightarrow>
         list_all (\<lambda>c. cfile c \<noteq> p) (prom_scan_walk cfg env now baseline files changes)"
proof (induction files arbitrary: changes)
  case Nil
  then show ?case by simp
next
  case (Cons f rest)
  show ?case
  proof (cases "prom_is_excluded_path cfg f")
    case True
    with Cons show ?thesis by simp
  next
    case False
    with Cons.IH [OF prom_check_file_no_record [OF assms Cons.prems, of now f]]
    show ?thesis by simp
  qed
qed

lemma prom_scan_paths_no_record:
  assumes "map_of baseline p = Some bi"
    and "prom_calculate_file_hash env p = None"
  shows "list_all (\<lambda>c. cfile c \<noteq> p) changes \<Longrightarrow>
         list_all (\<lambda>c. cfile c \<noteq> p) (prom_scan_paths cfg env now baseline paths changes)"
proof (induction paths arbitrary: changes)
  case Nil
  then show ?case by simp
next
  case (Cons d rest)
  note step = Cons.IH [OF Cons.prems]
    Cons.IH [OF prom_check_file_no_record [OF assms Cons.prems, of now d]]
    Cons.IH [OF prom_scan_walk_no_record [OF assms Cons.prems, of cfg now "walk_files env d"]]
  show ?case
    by (cases "path_exists env d"; cases "isfile env d"; cases "prom_is_excluded_path cfg d")
       (simp_all add: step)
qed

lemma prom_check_deleted_no_record:
  assumes "path_exists env p"
  shows "list_all (\<lambda>c. cfile c \<noteq> p) changes \<Longrightarrow>
         list_all (\<lambda>c. cfile c \<noteq> p) (prom_check_deleted env now ks changes)"
proof (induction ks arbitrary: changes)
  case Nil
  then show ?case by simp
next
  case (Cons k rest)
  show ?case
  proof (cases "path_exists env k")
    case True
    with Cons show ?thesis by simp
  next
    case False
    with assms have "k \<noteq> p" by auto
    with False Cons.prems have
      "list_all (\<lambda>c. cfile c \<noteq> p)
         (changes @ [\<lparr>ctype = ''DELETED'', cfile = k, old_hash = None, new_hash = None,
                      chash = None, c_timestamp = now\<rparr>])"
      by simp
    from Cons.IH [OF this] False show ?thesis by simp
  qed
qed

text \<open>
  C10. In the Prometheus scan, a path that is in the baseline and still exists on disk, but
  whose digest cannot be computed, gets no change record at all: neither MODIFIED nor
  DELETED.
\<close>

theorem prom_unreadable_file_no_record:
  assumes "map_of baseline p = Some bi"
    and "path_exists env p"
    and "prom_calculate_file_hash env p = None"
  shows "\<forall>c \<in> set (prom_scan_changes cfg env now baseline). cfile c \<noteq> p"
proof -
  have "list_all (\<lambda>c. cfile c \<noteq> p)
          (prom_scan_paths cfg env now baseline (monitored_paths cfg) [])"
    by (rule prom_scan_paths_no_record [OF assms(1) assms(3)]) simp
  then have "list_all (\<lambda>c. cfile c \<noteq> p) (prom_scan_changes cfg env now baseline)"
    unfolding prom_scan_changes_def by (rule prom_check_deleted_no_record [OF assms(2)])
  then show ?thesis by (simp add: list_all_iff)
qed

theorem prom_unreadable_file_no_record_witness:
  "map_of base_ex ''/data/a.txt'' =
     Some \<lparr>hash = ''#hello'', fsize = 5, mtime = 0, scanned_at = None, ftype = Some ''file''\<rparr>
   \<and> path_exists env_unreadable ''/data/a.txt''
   \<and> prom_calculate_file_hash env_unreadable ''/data/a.txt'' = None
   \<and> ''/data/a.txt'' \<notin> cfile ` set (prom_scan_changes cfg_ex env_unreadable ''t1'' base_ex)"
proof -
  have a: "map_of base_ex ''/data/a.txt'' =
     Some \<lparr>hash = ''#hello'', fsize = 5, mtime = 0, scanned_at = None, ftype = Some ''file''\<rparr>"
    by (simp add: base_ex_def)
  have b: "path_exists env_unreadable ''/data/a.txt''"
    by (simp add: env_unreadable_def env_ex_def)
  have c: "prom_calculate_file_hash env_unreadable ''/data/a.txt'' = None"
    by (simp add: prom_calculate_file_hash_def env_unreadable_def)
  have "\<forall>c \<in> set (prom_scan_changes cfg_ex env_unreadable ''t1'' base_ex).
          cfile c \<noteq> ''/data/a.txt''"
    by (rule prom_unreadable_file_no_record [OF a b c])
  then have d: "''/data/a.txt'' \<notin>
      cfile ` set (prom_scan_changes cfg_ex env_unreadable ''t1'' base_ex)"
    by (rule not_in_image_cfile)
  from a b c d show ?thesis by (intro conjI)
qed

text \<open>
  C7, at an input where the Prometheus agent departs from it: the baseline holds
  \<^verbatim>\<open>/data/a.txt\<close> with its fingerprint and the file is gone from disk. The scan emits one
  DELETED record, and the record carries no fingerprint.
\<close>

theorem prom_deleted_record_without_fingerprint:
  "prom_scan_changes cfg_ex env_gone ''t1'' base_ex =
     [\<lparr>ctype = ''DELETED'', cfile = ''/data/a.txt'', old_hash = None, new_hash = None,
       chash = None, c_timestamp = ''t1''\<rparr>]"
  by (simp add: prom_scan_changes_def cfg_ex_def env_gone_def env_ex_def base_ex_def)

section \<open>Classification of the changes by both agents\<close>



















section \<open>Properties of the baseline store, the reports and the scan cycle\<close>

lemma check_modified_empty_baseline:
  "check_modified [] now current =
     map (\<lambda>item. \<lparr>ctype = ''new'', cfile = fst item, old_hash = None, new_hash = None,
                   chash = Some (hash (snd item)), c_timestamp = now\<rparr>) current"
  by (induction current) simp_all

lemma critical_log_prom_create_baseline:
  "critical_log (snd (prom_create_baseline cfg env wr w)) = critical_log w"
  by (simp add: prom_create_baseline_def Let_def)

lemma critical_log_prom_update_baseline:
  "critical_log (snd (prom_update_baseline cfg env wr w)) = critical_log w"
  using critical_log_prom_create_baseline [of cfg env wr w]
  by (cases "prom_create_baseline cfg env wr w"; cases "fst (prom_create_baseline cfg env wr w)")
     (simp_all add: prom_update_baseline_def)

lemma critical_log_prom_load_baseline:
  "critical_log (snd (prom_load_baseline cfg env wr w)) = critical_log w"
  by (cases "baseline_file w")
     (simp_all add: prom_load_baseline_def critical_log_prom_create_baseline)

lemma critical_log_report_changes:
  "critical_log (report_changes now wr changes w) = critical_log w"
proof (cases "report_file w")
  case Absent
  then show ?thesis by (simp add: report_changes_def Let_def)
next
  case (Holds doc)
  then show ?thesis by (cases doc) (simp_all add: report_changes_def Let_def)
next
  case Torn
  then show ?thesis by (simp add: report_changes_def Let_def)
qed

lemma report_file_perform_scan:
  "report_file (perform_scan cfg env now wr_report wr_baseline w) =
     report_file (report_changes now wr_report
       (compare_with_baseline w now
          (scan_monitored_paths cfg env now (monitored_paths cfg) [])) w)"
  by (simp add: perform_scan_def Let_def save_baseline_def send_alert_def report_changes_def)

text \<open>
  C2, amended. In the Prometheus agent, a scan cycle that finds a baseline file and
  produces no change record leaves the whole persisted state as it was: baseline file,
  report file and alert log. The basic agent saves the fresh snapshot after every cycle:
  a cycle without changes writes the report file and the alert log not at all, and writes
  the baseline file with the snapshot just taken.
\<close>

theorem zero_change_cycle:
  "(baseline_file w \<noteq> Absent \<and> prom_load_baseline cfg env wr_load w = (Returned baseline, w1)
      \<and> prom_scan_changes cfg env now baseline = []
      \<longrightarrow> prom_scan_files cfg env now wr_load wr_report wr_update w = (Returned (), w))
   \<and> (compare_with_baseline w now
         (scan_monitored_paths cfg env now (monitored_paths cfg) []) = []
      \<longrightarrow> perform_scan cfg env now wr_report wr_baseline w =
           w\<lparr>baseline_file :=
               write_json wr_baseline
                 (scan_monitored_paths cfg env now (monitored_paths cfg) [])
                 (baseline_file w)\<rparr>)"
proof (intro conjI impI)
  assume a: "baseline_file w \<noteq> Absent \<and>
      prom_load_baseline cfg env wr_load w = (Returned baseline, w1) \<and>
      prom_scan_changes cfg env now baseline = []"
  then have "w1 = w"
    by (cases "baseline_file w") (auto simp: prom_load_baseline_def)
  with a show "prom_scan_files cfg env now wr_load wr_report wr_update w = (Returned (), w)"
    by (simp add: prom_scan_files_def)
next
  assume "compare_with_baseline w now
            (scan_monitored_paths cfg env now (monitored_paths cfg) []) = []"
  then show "perform_scan cfg env now wr_report wr_baseline w =
      w\<lparr>baseline_file :=
          write_json wr_baseline
            (scan_monitored_paths cfg env now (monitored_paths cfg) [])
            (baseline_file w)\<rparr>"
    by (simp add: perform_scan_def save_baseline_def)
qed

theorem zero_change_cycle_witness:
  "baseline_file w_prom \<noteq> Absent
   \<and> prom_load_baseline cfg_ex env_ex WriteOk w_prom = (Returned base_ex, w_prom)
   \<and> prom_scan_changes cfg_ex env_ex ''t1'' base_ex = []
   \<and> prom_scan_files cfg_ex env_ex ''t1'' WriteOk WriteOk WriteOk w_prom = (Returned (), w_prom)
   \<and> compare_with_baseline w_basic ''t1''
        (scan_monitored_paths cfg_ex env_ex ''t1'' (monitored_paths cfg_ex) []) = []
   \<and> perform_scan cfg_ex env_ex ''t1'' WriteOk WriteOk w_basic =
        w_basic\<lparr>baseline_file :=
           write_json WriteOk
             (scan_monitored_paths cfg_ex env_ex ''t1'' (monitored_paths cfg_ex) [])
             (baseline_file w_basic)\<rparr>"
proof -
  have a: "baseline_file w_prom \<noteq> Absent"
    by (simp add: w_prom_def)
  have b: "prom_load_baseline cfg_ex env_ex WriteOk w_prom = (Returned base_ex, w_prom)"
    by (simp add: prom_load_baseline_def w_prom_def)
  have c: "compare_with_baseline w_basic ''t1''
        (scan_monitored_paths cfg_ex env_ex ''t1'' (monitored_paths cfg_ex) []) = []"
    by (simp add: scan_ex compare_with_baseline_def load_baseline_def w_basic_def)
  have d: "prom_scan_files cfg_ex env_ex ''t1'' WriteOk WriteOk WriteOk w_prom =
             (Returned (), w_prom)"
    by (rule zero_change_cycle [THEN conjunct1, THEN mp, of w_prom _ _ _ base_ex w_prom])
       (simp add: a b prom_scan_ex)
  have e: "perform_scan cfg_ex env_ex ''t1'' WriteOk WriteOk w_basic =
        w_basic\<lparr>baseline_file :=
           write_json WriteOk
             (scan_monitored_paths cfg_ex env_ex ''t1'' (monitored_paths cfg_ex) [])
             (baseline_file w_basic)\<rparr>"
    by (rule zero_change_cycle [THEN conjunct2, THEN mp]) (rule c)
  from a b prom_scan_ex d c e show ?thesis by (intro conjI)
qed

text \<open>
  The claim without the amendment fails for the basic agent: the file \<^verbatim>\<open>/data/a.txt\<close> is
  unchanged, the diff is empty, and the baseline file is rewritten with the new value of
  \<^verbatim>\<open>scanned_at\<close>.
\<close>

theorem zero_change_cycle_counterexample:
  "compare_with_baseline w_basic ''t1''
     (scan_monitored_paths cfg_ex env_ex ''t1'' (monitored_paths cfg_ex) []) = []
   \<and> baseline_file (perform_scan cfg_ex env_ex ''t1'' WriteOk WriteOk w_basic)
       \<noteq> baseline_file w_basic"
  by (simp add: scan_ex perform_scan_def compare_with_baseline_def load_baseline_def
      save_baseline_def w_basic_def)

text \<open>
  C3, amended. When no baseline file exists, \<^verbatim>\<open>load_baseline\<close> of the basic agent returns
  the empty snapshot (it has no access to the store but reading), and the diff against it
  reports every scanned file as \<^verbatim>\<open>new\<close> and none as deleted. \<^verbatim>\<open>load_baseline\<close> of the
  Prometheus agent is \<^verbatim>\<open>create_baseline\<close> then: it builds a baseline from the file
  system, writes it to the store and returns it.
\<close>

theorem load_without_baseline:
  assumes "baseline_file w = Absent"
  shows "load_baseline w = []
     \<and> compare_with_baseline w now current =
         map (\<lambda>item. \<lparr>ctype = ''new'', cfile = fst item, old_hash = None, new_hash = None,
                       chash = Some (hash (snd item)), c_timestamp = now\<rparr>) current
     \<and> prom_load_baseline cfg env wr w = prom_create_baseline cfg env wr w
     \<and> prom_load_baseline cfg env WriteOk w =
         (Returned (prom_baseline_paths cfg env (monitored_paths cfg) []),
          w\<lparr>baseline_file := Holds (prom_baseline_paths cfg env (monitored_paths cfg) [])\<rparr>)"
  using assms
  by (simp add: load_baseline_def compare_with_baseline_def check_modified_empty_baseline
      prom_load_baseline_def prom_create_baseline_def Let_def)

theorem load_without_baseline_witness:
  "baseline_file w_absent = Absent
   \<and> load_baseline w_absent = []
   \<and> compare_with_baseline w_absent ''t1'' base_ex =
       [\<lparr>ctype = ''new'', cfile = ''/data/a.txt'', old_hash = None, new_hash = None,
         chash = Some ''#hello'', c_timestamp = ''t1''\<rparr>]
   \<and> prom_load_baseline cfg_ex env_ex WriteOk w_absent =
       (Returned base_ex, w_absent\<lparr>baseline_file := Holds base_ex\<rparr>)"
proof -
  have a: "baseline_file w_absent = Absent"
    by (simp add: w_absent_def)
  note th = load_without_baseline [OF a, of "''t1''" base_ex cfg_ex env_ex WriteOk]
  have b: "load_baseline w_absent = []"
    using th by (rule conjunct1)
  have c: "compare_with_baseline w_absent ''t1'' base_ex =
       [\<lparr>ctype = ''new'', cfile = ''/data/a.txt'', old_hash = None, new_hash = None,
         chash = Some ''#hello'', c_timestamp = ''t1''\<rparr>]"
    using th [THEN conjunct2, THEN conjunct1] by (simp add: base_ex_def)
  have d: "prom_load_baseline cfg_ex env_ex WriteOk w_absent =
       (Returned base_ex, w_absent\<lparr>baseline_file := Holds base_ex\<rparr>)"
    using th [THEN conjunct2, THEN conjunct2, THEN conjunct2]
    by (simp only: prom_baseline_ex)
  from a b c d show ?thesis by (intro conjI)
qed

text \<open>
  The claim without the amendment fails for the Prometheus agent: with no baseline file
  and one readable file under the monitored root, the load returns a snapshot that is not
  empty and leaves a baseline file behind.
\<close>

theorem load_without_baseline_counterexample:
  "baseline_file w_absent = Absent
   \<and> fst (prom_load_baseline cfg_ex env_ex WriteOk w_absent) \<noteq> Returned []
   \<and> baseline_file (snd (prom_load_baseline cfg_ex env_ex WriteOk w_absent)) \<noteq> Absent"
  by (simp add: prom_load_baseline_def prom_create_baseline_def prom_baseline_ex
      w_absent_def base_ex_def Let_def)

text \<open>
  C6, amended. A scan cycle of the Prometheus agent that has loaded a baseline and found
  at least one change logs the alert exactly when the number of changes is at least the
  threshold; a cycle without changes logs none. The basic agent has no threshold: it logs
  the alert exactly when it found at least one change and \<^verbatim>\<open>alert_on_change\<close> is set,
  whatever \<^verbatim>\<open>alert_threshold\<close> the configuration holds.
\<close>

theorem alert_emission:
  "(prom_load_baseline cfg env wr_load w = (Returned baseline, w1) \<longrightarrow>
      critical_log (snd (prom_scan_files cfg env now wr_load wr_report wr_update w)) =
        critical_log w @
        (if prom_scan_changes cfg env now baseline \<noteq> []
            \<and> alert_threshold cfg \<le> int (length (prom_scan_changes cfg env now baseline))
         then [length (prom_scan_changes cfg env now baseline)] else []))
   \<and> critical_log (perform_scan cfg env now wr_report wr_baseline w) =
        critical_log w @
        (if compare_with_baseline w now
              (scan_monitored_paths cfg env now (monitored_paths cfg) []) \<noteq> []
            \<and> alert_on_change cfg
         then [length (compare_with_baseline w now
                 (scan_monitored_paths cfg env now (monitored_paths cfg) []))]
         else [])"
proof (intro conjI impI)
  assume load: "prom_load_baseline cfg env wr_load w = (Returned baseline, w1)"
  have w1: "critical_log w1 = critical_log w"
    using critical_log_prom_load_baseline [of cfg env wr_load w] load by simp
  show "critical_log (snd (prom_scan_files cfg env now wr_load wr_report wr_update w)) =
        critical_log w @
        (if prom_scan_changes cfg env now baseline \<noteq> []
            \<and> alert_threshold cfg \<le> int (length (prom_scan_changes cfg env now baseline))
         then [length (prom_scan_changes cfg env now baseline)] else [])"
    by (simp add: prom_scan_files_def load Let_def critical_log_prom_update_baseline
        prom_save_report_def w1)
next
  show "critical_log (perform_scan cfg env now wr_report wr_baseline w) =
        critical_log w @
        (if compare_with_baseline w now
              (scan_monitored_paths cfg env now (monitored_paths cfg) []) \<noteq> []
            \<and> alert_on_change cfg
         then [length (compare_with_baseline w now
                 (scan_monitored_paths cfg env now (monitored_paths cfg) []))]
         else [])"
    by (simp add: perform_scan_def Let_def save_baseline_def send_alert_def
        critical_log_report_changes)
qed

text \<open>
  With threshold 10, eleven new files fire the alert and nine do not.
\<close>

theorem alert_emission_witness:
  "prom_load_baseline cfg_ex (env_files files11) WriteOk w_empty = (Returned [], w_empty)
   \<and> alert_threshold cfg_ex = 10
   \<and> length (prom_scan_changes cfg_ex (env_files files11) ''t1'' []) = 11
   \<and> critical_log (snd (prom_scan_files cfg_ex (env_files files11) ''t1''
         WriteOk WriteOk WriteOk w_empty)) = [11]
   \<and> length (prom_scan_changes cfg_ex (env_files (take 9 files11)) ''t1'' []) = 9
   \<and> critical_log (snd (prom_scan_files cfg_ex (env_files (take 9 files11)) ''t1''
         WriteOk WriteOk WriteOk w_empty)) = []"
proof -
  have l: "prom_load_baseline cfg_ex env WriteOk w_empty = (Returned [], w_empty)" for env
    by (simp add: prom_load_baseline_def w_empty_def)
  have t: "alert_threshold cfg_ex = 10"
    by (simp add: cfg_ex_def)
  have c: "critical_log w_empty = []"
    by (simp add: w_empty_def)
  have n11: "prom_scan_changes cfg_ex (env_files files11) ''t1'' [] \<noteq> []"
    using prom_scan_11 by auto
  have a11: "critical_log (snd (prom_scan_files cfg_ex (env_files files11) ''t1''
         WriteOk WriteOk WriteOk w_empty)) = [11]"
    using alert_emission [THEN conjunct1, THEN mp, OF l, of "env_files files11" "''t1''"
        WriteOk WriteOk]
    by (simp add: t c prom_scan_11 n11)
  have a9: "critical_log (snd (prom_scan_files cfg_ex (env_files (take 9 files11)) ''t1''
         WriteOk WriteOk WriteOk w_empty)) = []"
    using alert_emission [THEN conjunct1, THEN mp, OF l, of "env_files (take 9 files11)"
        "''t1''" WriteOk WriteOk]
    by (simp add: t c prom_scan_9)
  from l t prom_scan_11 a11 prom_scan_9 a9 show ?thesis by (intro conjI)
qed

text \<open>
  The claim without the amendment fails for the basic agent: with threshold 10 in the
  configuration, a cycle with nine changes logs the alert.
\<close>

lemma scan_9:
  "length (scan_monitored_paths cfg_ex (env_files (take 9 files11)) ''t1''
            (monitored_paths cfg_ex) []) = 9"
  by (simp add: cfg_ex_def env_files_def files11_def scan_directory_def
      should_monitor_path_def endswith_star_def calculate_file_hash_def dict_update_def)

theorem alert_threshold_counterexample:
  "alert_threshold cfg_ex = 10 \<and> alert_on_change cfg_ex
   \<and> length (compare_with_baseline w_empty ''t1''
        (scan_monitored_paths cfg_ex (env_files (take 9 files11)) ''t1''
           (monitored_paths cfg_ex) [])) = 9
   \<and> critical_log (perform_scan cfg_ex (env_files (take 9 files11)) ''t1''
        WriteOk WriteOk w_empty) = [9]"
proof -
  let ?s = "scan_monitored_paths cfg_ex (env_files (take 9 files11)) ''t1''
              (monitored_paths cfg_ex) []"
  have t: "alert_threshold cfg_ex = 10" and o: "alert_on_change cfg_ex"
    by (simp_all add: cfg_ex_def)
  have n: "length (compare_with_baseline w_empty ''t1'' ?s) = 9"
    by (simp add: compare_with_baseline_def load_baseline_def w_empty_def
        check_modified_empty_baseline scan_9)
  then have ne: "compare_with_baseline w_empty ''t1'' ?s \<noteq> []"
    by auto
  have l: "critical_log (perform_scan cfg_ex (env_files (take 9 files11)) ''t1''
        WriteOk WriteOk w_empty) = critical_log w_empty @ [9]"
    using ne n o
    by (simp add: perform_scan_def Let_def save_baseline_def send_alert_def
        critical_log_report_changes)
  from t o n l show ?thesis by (simp add: w_empty_def)
qed




text \<open>
  C9, amended. Both agents write the baseline file in place: there is no temporary file
  and no rename. A successful write leaves exactly the given snapshot in the store, and
  loading gives it back. A write that fails in \<^verbatim>\<open>open\<close> leaves the previous baseline. A
  write that fails after \<^verbatim>\<open>open\<close> leaves a file that cannot be parsed, which the basic
  agent then loads as the empty snapshot; in the Prometheus agent a failed write raises out
  of \<^verbatim>\<open>create_baseline\<close>.
\<close>

theorem baseline_replace_in_place:
  "baseline_file (save_baseline WriteOk s w) = Holds s
   \<and> load_baseline (save_baseline WriteOk s w) = s
   \<and> save_baseline OpenFails s w = w
   \<and> baseline_file (save_baseline DumpFails s w) = Torn
   \<and> load_baseline (save_baseline DumpFails s w) = []
   \<and> prom_create_baseline cfg env WriteOk w =
       (Returned (prom_baseline_paths cfg env (monitored_paths cfg) []),
        w\<lparr>baseline_file := Holds (prom_baseline_paths cfg env (monitored_paths cfg) [])\<rparr>)
   \<and> prom_create_baseline cfg env OpenFails w = (Raised, w)
   \<and> prom_create_baseline cfg env DumpFails w = (Raised, w\<lparr>baseline_file := Torn\<rparr>)"
  by (simp add: save_baseline_def load_baseline_def prom_create_baseline_def Let_def)

theorem baseline_replace_in_place_witness:
  "baseline_file (save_baseline WriteOk [] w_prom) = Holds []
   \<and> save_baseline OpenFails [] w_prom = w_prom
   \<and> baseline_file (save_baseline DumpFails [] w_prom) = Torn
   \<and> prom_create_baseline cfg_ex env_ex DumpFails w_prom =
       (Raised, w_prom\<lparr>baseline_file := Torn\<rparr>)"
  using baseline_replace_in_place [of "[]" w_prom cfg_ex env_ex]
  by (intro conjI) (elim conjE, assumption)+

text \<open>
  The claim without the amendment fails: a write that fails after \<^verbatim>\<open>open\<close> destroys the
  previous baseline.
\<close>

theorem baseline_replace_counterexample:
  "baseline_file w_prom = Holds base_ex
   \<and> baseline_file (save_baseline DumpFails [] w_prom) = Torn
   \<and> load_baseline (save_baseline DumpFails [] w_prom) \<noteq> load_baseline w_prom"
  by (simp add: save_baseline_def load_baseline_def w_prom_def base_ex_def)

end
